theory Spec2Isabelle
  imports Main "HOL-Library.Char_ord" "HOL-Library.List_Lexorder"
begin

section \<open>What the sources take from util/\<close>

text \<open>
  \<^verbatim>\<open>ad_utility::getLowercaseUtf8\<close>, \<^verbatim>\<open>ad_utility::findLiteralEnd\<close> and
  \<^verbatim>\<open>ad_utility::strip\<close> are defined in util/StringUtils.h, which is not part of the
  sources at hand: they are parameters of the model, the fields of a record every
  function that calls them takes. \<open>findLiteralEnd\<close> returns a position inside its
  argument or \<^verbatim>\<open>npos\<close> (here \<open>None\<close>). \<open>charIsSigned\<close> says whether plain \<^verbatim>\<open>char\<close> is
  signed on the platform.
\<close>

record StringUtils =
  getLowercaseUtf8 :: "string \<Rightarrow> string"
  findLiteralEnd :: "string \<Rightarrow> nat option"
  strip :: "string \<Rightarrow> string \<Rightarrow> string"
  charIsSigned :: bool

section \<open>Parsed query representation (src/parser/ParsedQuery.cpp)\<close>

subsection \<open>SparqlFilter\<close>

text \<open>
  The filter types of \<^verbatim>\<open>SparqlFilter::FilterType\<close>, as the \<^verbatim>\<open>switch\<close> of
  \<^verbatim>\<open>SparqlFilter::asString\<close> lists them.
\<close>

datatype FilterType = EQ | NE | LT | LE | GT | GE | LANG_MATCHES | PREFIX | REGEX

record SparqlFilter =
  f_type :: FilterType
  f_lhs :: string
  f_rhs :: string
  f_regexIgnoreCase :: bool

text \<open>
  \<^verbatim>\<open>SparqlFilter::asString\<close>: the text each case of the switch writes between the two
  sides, in the order of the source.
\<close>

fun filterOperator :: "FilterType \<Rightarrow> bool \<Rightarrow> string" where
  "filterOperator EQ _ = '' < ''"
| "filterOperator NE _ = '' != ''"
| "filterOperator LT _ = '' < ''"
| "filterOperator LE _ = '' <= ''"
| "filterOperator GT _ = '' > ''"
| "filterOperator GE _ = '' >= ''"
| "filterOperator LANG_MATCHES _ = '' LANG_MATCHES ''"
| "filterOperator PREFIX _ = '' PREFIX ''"
| "filterOperator REGEX ic = '' REGEX '' @ (if ic then ''ignoring case '' else '''')"

definition filter_asString :: "SparqlFilter \<Rightarrow> string" where
  "filter_asString f =
     ''FILTER('' @ f_lhs f @ filterOperator (f_type f) (f_regexIgnoreCase f) @ f_rhs f @ '')''"

subsection \<open>PropertyPath\<close>

datatype Operation =
  SEQUENCE | ALTERNATIVE | TRANSITIVE | TRANSITIVE_MIN | TRANSITIVE_MAX | INVERSE | IRI

text \<open>
  A node of the property path tree: \<^verbatim>\<open>_operation\<close>, \<^verbatim>\<open>_limit\<close> (a \<^verbatim>\<open>uint16_t\<close>,
  held as a natural number: it is only compared with 0), \<^verbatim>\<open>_iri\<close>, \<^verbatim>\<open>_children\<close> and
  the derived flag \<^verbatim>\<open>_can_be_null\<close>.
\<close>

datatype PropertyPath =
  PropertyPath (pp_operation: Operation) (pp_limit: nat) (pp_iri: string)
    (pp_children: "PropertyPath list") (pp_can_be_null: bool)

text \<open>
  \<^verbatim>\<open>PropertyPath::computeCanBeNull\<close>. The flag starts as \<^verbatim>\<open>_children.size() > 0\<close>, every
  child is recomputed in place and its flag and-ed in, and the three transitive cases set
  the flag at the end. The function returns the tree with every flag rewritten.
\<close>

fun computeCanBeNull :: "PropertyPath \<Rightarrow> PropertyPath" where
  "computeCanBeNull (PropertyPath op lim iri cs old) =
     (let cs' = map computeCanBeNull cs;
          flag = fold (\<lambda>p acc. acc \<and> pp_can_be_null p) cs' (cs \<noteq> []);
          flag' = (if op = TRANSITIVE \<or> op = TRANSITIVE_MAX \<or> (op = TRANSITIVE_MIN \<and> lim = 0)
                   then True else flag)
      in PropertyPath op lim iri cs' flag')"

text \<open>
  The nullability rule of a single node, read off its operation, limit and children's
  flags; \<open>can_be_null_everywhere\<close> asks for it at every node of a tree.
\<close>

definition nullable_rule :: "PropertyPath \<Rightarrow> bool" where
  "nullable_rule p =
     (pp_operation p = TRANSITIVE \<or> pp_operation p = TRANSITIVE_MAX \<or>
      (pp_operation p = TRANSITIVE_MIN \<and> pp_limit p = 0) \<or>
      (pp_children p \<noteq> [] \<and> list_all pp_can_be_null (pp_children p)))"

fun can_be_null_everywhere :: "PropertyPath \<Rightarrow> bool" where
  "can_be_null_everywhere (PropertyPath op lim iri cs flag) =
     (flag = nullable_rule (PropertyPath op lim iri cs flag) \<and>
      list_all can_be_null_everywhere cs)"

text \<open>
  Nullability as the spec words it, read off the tree alone, whatever flags it holds:
  a path is nullable iff it is \<open>TRANSITIVE\<close>, or \<open>TRANSITIVE_MAX\<close>, or \<open>TRANSITIVE_MIN\<close>
  with limit 0, or it has children and all its children are nullable.
\<close>

fun nullable :: "PropertyPath \<Rightarrow> bool" where
  "nullable (PropertyPath op lim iri cs flag) =
     (op = TRANSITIVE \<or> op = TRANSITIVE_MAX \<or> (op = TRANSITIVE_MIN \<and> lim = 0) \<or>
      (cs \<noteq> [] \<and> list_all nullable cs))"

text \<open>Two leaves and two transitive paths for the examples.\<close>

definition iriLeaf :: "string \<Rightarrow> PropertyPath" where
  "iriLeaf i = PropertyPath IRI 0 i [] True"

definition starPath :: PropertyPath where
  "starPath = PropertyPath TRANSITIVE 0 [] [iriLeaf ''<a>''] False"

definition maxPath :: PropertyPath where
  "maxPath = PropertyPath TRANSITIVE_MAX 3 [] [iriLeaf ''<b>''] False"


subsection \<open>Prefix expansion of a single term\<close>

text \<open>
  \<^verbatim>\<open>ad_utility::startsWith\<close>.
\<close>

definition startsWith :: "string \<Rightarrow> string \<Rightarrow> bool" where
  "startsWith text p = (take (length p) text = p)"

text \<open>
  \<^verbatim>\<open>std::string::find(pattern, pos)\<close>: the first position at or after \<open>pos\<close> where the
  pattern starts, \<open>None\<close> for \<^verbatim>\<open>npos\<close>. \<open>find_at\<close> walks the rest of the string, \<open>i\<close>
  being the position of its first character.
\<close>

fun find_at :: "string \<Rightarrow> string \<Rightarrow> nat \<Rightarrow> nat option" where
  "find_at [] pat i = (if pat = [] then Some i else None)"
| "find_at (c # cs) pat i =
     (if startsWith (c # cs) pat then Some i else find_at cs pat (Suc i))"

definition str_find :: "string \<Rightarrow> string \<Rightarrow> nat \<Rightarrow> nat option" where
  "str_find s pat pos = (if pos \<le> length s then find_at (drop pos s) pat pos else None)"

text \<open>
  The exceptions of the parser: \<^verbatim>\<open>ParseException\<close> with its message, and the
  \<^verbatim>\<open>std::out_of_range\<close> of \<^verbatim>\<open>substr\<close> and \<^verbatim>\<open>compare\<close> called with a position beyond
  the end of the string.
\<close>

datatype error = ParseException string | OutOfRange

text \<open>
  \<^verbatim>\<open>ParsedQuery::expandPrefix(string&, prefixMap)\<close>, lines 308 to 319: the language tag
  of an item that begins with \<open>@\<close>, and the item after the second \<open>@\<close>.
\<close>

definition splitLangtag :: "string \<Rightarrow> error + (string option \<times> string)" where
  "splitLangtag item =
     (if startsWith item ''@''
      then (case str_find item ''@'' 1 of
              None \<Rightarrow> Inl (ParseException
                (''langtaged predicates must have form @lang@ActualPredicate. Second '' @
                 ''@ is missing in '' @ item))
            | Some secondPos \<Rightarrow>
                Inr (Some (take (secondPos - 1) (drop 1 item)), drop (secondPos + 1) item))
      else Inr (None, item))"

text \<open>
  Lines 321 to 339: \<open>i\<close> is the first \<open>:\<close> of the item, \<open>fromPos\<close> (the source's
  \<^verbatim>\<open>from\<close>) the position after the first \<open>^^\<close>, or 0. \<^verbatim>\<open>prefixUri.substr(0, size - 1)\<close>
  is the IRI without its last character (\<open>butlast\<close>, also on the empty string).
\<close>

definition replacePrefix :: "(string \<rightharpoonup> string) \<Rightarrow> string \<Rightarrow> string" where
  "replacePrefix prefixMap item =
     (let i = str_find item '':'' 0;
          fromPos = (case str_find item ''^^'' 0 of None \<Rightarrow> 0 | Some p \<Rightarrow> p + 2)
      in case i of
           None \<Rightarrow> item
         | Some i \<Rightarrow>
             if i \<ge> fromPos
             then (case prefixMap (take (i - fromPos) (drop fromPos item)) of
                     None \<Rightarrow> item
                   | Some prefixUri \<Rightarrow>
                       if fromPos = 0
                       then butlast prefixUri @ drop (i + 1) item @ ''>''
                       else take fromPos item @ butlast prefixUri @ drop (i + 1) item @ ''>'')
             else item)"

text \<open>
  \<^verbatim>\<open>ParsedQuery::expandPrefix(string&, prefixMap)\<close>. The item is changed in place; the
  model returns the new item, or the exception. \<open>conv\<close> is
  \<^verbatim>\<open>ad_utility::convertToLanguageTaggedPredicate\<close> (util/Conversions.h, not part of the
  sources at hand), a parameter.
\<close>

definition expandPrefix ::
  "(string \<Rightarrow> string \<Rightarrow> string) \<Rightarrow> (string \<rightharpoonup> string) \<Rightarrow> string \<Rightarrow> error + string" where
  "expandPrefix conv prefixMap item =
     (if \<not> startsWith item ''?'' \<and> \<not> startsWith item ''<''
      then (case splitLangtag item of
              Inl e \<Rightarrow> Inl e
            | Inr (langtag, item1) \<Rightarrow>
                (let item2 = replacePrefix prefixMap item1
                 in case langtag of
                      Some l \<Rightarrow> Inr (conv item2 l)
                    | None \<Rightarrow> Inr item2))
      else Inr item)"

text \<open>
  A term with a colon inside the literal and a prefixed datatype after the marker,
  \<^verbatim>\<open>"a:b"^^xsd:int\<close>, one without the inner colon, \<^verbatim>\<open>"ab"^^xsd:int\<close>, and a prefix map
  that declares \<open>xsd\<close>.
\<close>

definition typed_literal_colon :: string where
  "typed_literal_colon = CHR 0x22 # ''a:b'' @ CHR 0x22 # ''^^xsd:int''"

definition typed_literal_plain :: string where
  "typed_literal_plain = CHR 0x22 # ''ab'' @ CHR 0x22 # ''^^xsd:int''"

definition xsdPrefixMap :: "string \<rightharpoonup> string" where
  "xsdPrefixMap = [''ql'' \<mapsto> ''<QLever-internal-function/>'', ''xsd'' \<mapsto> ''<http://x/>'']"

text \<open>
  Modelled from the spec: \<^verbatim>\<open>convertToLanguageTaggedPredicate\<close> is missing from the
  sources at hand; the spec has it wrap the expanded term into a language-tagged
  predicate form. For the examples: \<open>@\<close>, the tag, \<open>@\<close>, the predicate.
\<close>

definition tagPredicate :: "string \<Rightarrow> string \<Rightarrow> string" where
  "tagPredicate pred l = ''@'' @ l @ ''@'' @ pred"

subsection \<open>Alias parsing\<close>

text \<open>
  The struct \<^verbatim>\<open>Alias\<close>; its member \<^verbatim>\<open>_function\<close> is the field \<open>alias_function\<close>.
\<close>

record Alias =
  inVarName :: string
  outVarName :: string
  alias_function :: string
  isAggregate :: bool

text \<open>
  \<^verbatim>\<open>std::isspace\<close> in the C locale, and the loop
  \<^verbatim>\<open>while (pos < alias.size() && P(alias[pos])) pos++\<close>.
\<close>

definition isspace :: "char \<Rightarrow> bool" where
  "isspace c = (c = CHR '' '' \<or> (9 \<le> (of_char c :: nat) \<and> (of_char c :: nat) \<le> 13))"

definition skipWhile :: "(char \<Rightarrow> bool) \<Rightarrow> string \<Rightarrow> nat \<Rightarrow> nat" where
  "skipWhile P s pos = pos + length (takeWhile P (drop pos s))"

definition aggregateHead :: "string \<Rightarrow> bool" where
  "aggregateHead lowerInner =
     (startsWith lowerInner ''count'' \<or> startsWith lowerInner ''group_concat'' \<or>
      startsWith lowerInner ''first'' \<or> startsWith lowerInner ''last'' \<or>
      startsWith lowerInner ''sample'' \<or> startsWith lowerInner ''min'' \<or>
      startsWith lowerInner ''max'' \<or> startsWith lowerInner ''sum'' \<or>
      startsWith lowerInner ''avg'')"

text \<open>
  \<^verbatim>\<open>ParsedQuery::parseAlias\<close>, lines 371 to 423 and 447 to 449: from the text of the
  alias to the \<^verbatim>\<open>Alias\<close> \<open>a\<close>, or the exception. \<^verbatim>\<open>alias.substr(pos + 2)\<close> and
  \<^verbatim>\<open>lowerInner.compare(pos, 8, "distinct")\<close> throw \<^verbatim>\<open>std::out_of_range\<close> for a position
  beyond the end; \<^verbatim>\<open>alias.find('(', 1)\<close> plus one is 0 when nothing is found
  (\<^verbatim>\<open>npos + 1\<close> wraps).
\<close>

definition parseAliasHead :: "'u StringUtils_scheme \<Rightarrow> string \<Rightarrow> error + Alias" where
  "parseAliasHead u alias =
     (let lowerInner = getLowercaseUtf8 u alias
      in if aggregateHead lowerInner
         then (case str_find lowerInner '' as '' 0 of
                 None \<Rightarrow> Inl (ParseException
                   (''Alias ('' @ alias @ '') is malformed: keyword '' @ [CHR 0x27] @ ''as'' @
                    [CHR 0x27] @ '' is missing or not surrounded by spaces.''))
               | Some found \<Rightarrow>
                   (let pos = found + 1
                    in if pos + 2 > length alias then Inl OutOfRange
                       else
                         (let newVarName = strip u (drop (pos + 2) alias)
                                             [CHR '' '', CHR 0x09, CHR 0x0A];
                              pos2 = (case str_find alias ''('' 1 of None \<Rightarrow> 0 | Some q \<Rightarrow> q + 1);
                              pos3 = skipWhile isspace alias pos2
                          in if pos3 > length lowerInner then Inl OutOfRange
                             else
                               (let pos4 = (if take 8 (drop pos3 lowerInner) = ''distinct''
                                            then skipWhile isspace alias (pos3 + 8) else pos3);
                                    start = pos4;
                                    pos5 = skipWhile (\<lambda>c. \<not> isspace c) alias start
                                in if pos5 = start \<or> pos5 \<ge> length alias
                                   then Inl (ParseException
                                     (''Alias ('' @ alias @
                                      '') is malformed: no input variable given (e.g. COUNT(?a))''))
                                   else Inr \<lparr>inVarName = take (pos5 - start - 1) (drop start alias),
                                             outVarName = newVarName, alias_function = alias,
                                             isAggregate = True\<rparr>))))
         else Inl (ParseException (''Unknown or malformed alias: ('' @ alias @ '')'')))"

text \<open>
  Lines 424 to 442, the loop over \<^verbatim>\<open>_aliases\<close>: the first recorded alias with the output
  variable of \<open>a\<close> decides. The result is the flag \<^verbatim>\<open>isUnique\<close>, or the exception.
\<close>

fun checkUnique :: "Alias \<Rightarrow> Alias list \<Rightarrow> error + bool" where
  "checkUnique a [] = Inr True"
| "checkUnique a (other # rest) =
     (if outVarName other = outVarName a
      then (if isAggregate other \<noteq> isAggregate a \<or> alias_function other \<noteq> alias_function a
            then Inl (ParseException
              (''Two aliases try to bind values to the variable '' @ outVarName a))
            else Inr False)
      else checkUnique a rest)"

text \<open>
  \<^verbatim>\<open>ParsedQuery::parseAlias\<close>: the member \<^verbatim>\<open>_aliases\<close> is passed in and returned with the
  new variable name; an exception leaves it as it was.
\<close>

definition parseAlias ::
  "'u StringUtils_scheme \<Rightarrow> Alias list \<Rightarrow> string \<Rightarrow> error + (string \<times> Alias list)" where
  "parseAlias u aliases alias =
     (case parseAliasHead u alias of
        Inl e \<Rightarrow> Inl e
      | Inr a \<Rightarrow>
          (case checkUnique a aliases of
             Inl e \<Rightarrow> Inl e
           | Inr isUnique \<Rightarrow>
               Inr (outVarName a, if isUnique then aliases @ [a] else aliases)))"

text \<open>
  A sequence of alias projections processed by \<open>parseAlias\<close>, one call after the other
  on the same \<^verbatim>\<open>_aliases\<close>, as \<^verbatim>\<open>parseAliases\<close> does for the selected variables and
  order keys that begin with a bracket; the first exception ends it.
\<close>

fun parseAliasSeq ::
  "'u StringUtils_scheme \<Rightarrow> string list \<Rightarrow> Alias list \<Rightarrow> error + Alias list" where
  "parseAliasSeq u [] aliases = Inr aliases"
| "parseAliasSeq u (x # xs) aliases =
     (case parseAlias u aliases x of
        Inl e \<Rightarrow> Inl e
      | Inr (v, aliases') \<Rightarrow> parseAliasSeq u xs aliases')"

text \<open>
  What holds of \<^verbatim>\<open>_aliases\<close> while only \<open>parseAlias\<close> writes it: no two recorded aliases
  have the same output variable, and each is what its own function text parses to.
\<close>

definition aliases_inv :: "'u StringUtils_scheme \<Rightarrow> Alias list \<Rightarrow> bool" where
  "aliases_inv u L =
     (distinct (map outVarName L) \<and> list_all (\<lambda>a. parseAliasHead u (alias_function a) = Inr a) L)"

subsection \<open>Graph patterns and their ids\<close>

text \<open>
  A triple of a where clause, and the graph pattern tree. A \<^verbatim>\<open>GraphPattern\<close> holds its
  triples, filters, the flag \<^verbatim>\<open>_optional\<close>, its \<^verbatim>\<open>_id\<close> and its \<^verbatim>\<open>_children\<close>. A
  \<^verbatim>\<open>GraphPatternOperation\<close> is a tagged union: \<open>OPTIONAL\<close> and \<open>UNION\<close> hold
  \<^verbatim>\<open>_childGraphPatterns\<close>; \<open>SUBQUERY\<close> holds the sub-select, here its root graph pattern
  (\<open>None\<close> for a null pointer); \<open>TRANS_PATH\<close> holds \<^verbatim>\<open>_pathData\<close>: left, right, min, max
  and the inner pattern (\<open>None\<close> for a null pointer). The shared pointers of the source
  point to copies of their own (the copy constructors copy deeply), so the model is a
  tree. An id is a \<^verbatim>\<open>size_t\<close>, held as a natural number: a counter that starts at 0
  and counts the patterns of a tree in memory does not wrap.
\<close>

record SparqlTriple =
  t_s :: string
  t_p :: PropertyPath
  t_o :: string

datatype GraphPattern =
  GraphPattern (gp_whereClauseTriples: "SparqlTriple list") (gp_filters: "SparqlFilter list")
    (gp_optional: bool) (gp_id: nat) (gp_children: "GraphPatternOperation list")
and GraphPatternOperation =
    OPTIONAL "GraphPattern list"
  | UNION "GraphPattern list"
  | SUBQUERY "GraphPattern option"
  | TRANS_PATH string string nat nat "GraphPattern option"

text \<open>
  \<^verbatim>\<open>GraphPattern::recomputeIds(size_t* id_count)\<close>, with the counter passed in and
  returned. \<open>recomputeIds_children\<close> is the loop over \<^verbatim>\<open>_children\<close>, \<open>recomputeIds_op\<close>
  the switch on the type of one operation, \<open>recomputeIds_patterns\<close> the loop over
  \<^verbatim>\<open>_childGraphPatterns\<close>.
\<close>

fun recomputeIds :: "GraphPattern \<Rightarrow> nat \<Rightarrow> GraphPattern \<times> nat"
  and recomputeIds_children ::
    "GraphPatternOperation list \<Rightarrow> nat \<Rightarrow> GraphPatternOperation list \<times> nat"
  and recomputeIds_op :: "GraphPatternOperation \<Rightarrow> nat \<Rightarrow> GraphPatternOperation \<times> nat"
  and recomputeIds_patterns :: "GraphPattern list \<Rightarrow> nat \<Rightarrow> GraphPattern list \<times> nat"
where
  "recomputeIds (GraphPattern ts fs opt old cs) id_count =
     (case recomputeIds_children cs (id_count + 1) of
        (cs', n) \<Rightarrow> (GraphPattern ts fs opt id_count cs', n))"
| "recomputeIds_children [] id_count = ([], id_count)"
| "recomputeIds_children (op # ops) id_count =
     (case recomputeIds_op op id_count of
        (op', n) \<Rightarrow>
          (case recomputeIds_children ops n of (ops', m) \<Rightarrow> (op' # ops', m)))"
| "recomputeIds_op (OPTIONAL ps) id_count =
     (case recomputeIds_patterns ps id_count of (ps', n) \<Rightarrow> (OPTIONAL ps', n))"
| "recomputeIds_op (UNION ps) id_count =
     (case recomputeIds_patterns ps id_count of (ps', n) \<Rightarrow> (UNION ps', n))"
| "recomputeIds_op (TRANS_PATH l r mn mx None) id_count =
     (TRANS_PATH l r mn mx None, id_count)"
| "recomputeIds_op (TRANS_PATH l r mn mx (Some p)) id_count =
     (case recomputeIds p id_count of (p', n) \<Rightarrow> (TRANS_PATH l r mn mx (Some p'), n))"
| "recomputeIds_op (SUBQUERY q) id_count = (SUBQUERY q, id_count)"
| "recomputeIds_patterns [] id_count = ([], id_count)"
| "recomputeIds_patterns (p # ps) id_count =
     (case recomputeIds p id_count of
        (p', n) \<Rightarrow>
          (case recomputeIds_patterns ps n of (ps', m) \<Rightarrow> (p' # ps', m)))"

text \<open>
  The call on a root pattern, \<^verbatim>\<open>recomputeIds()\<close> with the default null pointer: the
  counter is a local that starts at 0.
\<close>

definition recomputeIds_root :: "GraphPattern \<Rightarrow> GraphPattern" where
  "recomputeIds_root g = fst (recomputeIds g 0)"

text \<open>
  For the statements: the ids of a tree in pre-order (a pattern before its children, the
  children from left to right), sub-selects left out; and two views of a tree, one that
  forgets the ids and the sub-selects (the structure of a tree), one that forgets only
  the sub-selects.
\<close>

fun preorder_ids :: "GraphPattern \<Rightarrow> nat list"
  and preorder_ids_children :: "GraphPatternOperation list \<Rightarrow> nat list"
  and preorder_ids_op :: "GraphPatternOperation \<Rightarrow> nat list"
  and preorder_ids_patterns :: "GraphPattern list \<Rightarrow> nat list"
where
  "preorder_ids (GraphPattern ts fs opt i cs) = i # preorder_ids_children cs"
| "preorder_ids_children [] = []"
| "preorder_ids_children (op # ops) = preorder_ids_op op @ preorder_ids_children ops"
| "preorder_ids_op (OPTIONAL ps) = preorder_ids_patterns ps"
| "preorder_ids_op (UNION ps) = preorder_ids_patterns ps"
| "preorder_ids_op (TRANS_PATH l r mn mx None) = []"
| "preorder_ids_op (TRANS_PATH l r mn mx (Some p)) = preorder_ids p"
| "preorder_ids_op (SUBQUERY q) = []"
| "preorder_ids_patterns [] = []"
| "preorder_ids_patterns (p # ps) = preorder_ids p @ preorder_ids_patterns ps"

fun shape :: "GraphPattern \<Rightarrow> GraphPattern"
  and shape_children :: "GraphPatternOperation list \<Rightarrow> GraphPatternOperation list"
  and shape_op :: "GraphPatternOperation \<Rightarrow> GraphPatternOperation"
  and shape_patterns :: "GraphPattern list \<Rightarrow> GraphPattern list"
where
  "shape (GraphPattern ts fs opt i cs) = GraphPattern ts fs opt 0 (shape_children cs)"
| "shape_children [] = []"
| "shape_children (op # ops) = shape_op op # shape_children ops"
| "shape_op (OPTIONAL ps) = OPTIONAL (shape_patterns ps)"
| "shape_op (UNION ps) = UNION (shape_patterns ps)"
| "shape_op (TRANS_PATH l r mn mx None) = TRANS_PATH l r mn mx None"
| "shape_op (TRANS_PATH l r mn mx (Some p)) = TRANS_PATH l r mn mx (Some (shape p))"
| "shape_op (SUBQUERY q) = SUBQUERY None"
| "shape_patterns [] = []"
| "shape_patterns (p # ps) = shape p # shape_patterns ps"

fun without_subqueries :: "GraphPattern \<Rightarrow> GraphPattern"
  and without_subqueries_children :: "GraphPatternOperation list \<Rightarrow> GraphPatternOperation list"
  and without_subqueries_op :: "GraphPatternOperation \<Rightarrow> GraphPatternOperation"
  and without_subqueries_patterns :: "GraphPattern list \<Rightarrow> GraphPattern list"
where
  "without_subqueries (GraphPattern ts fs opt i cs) =
     GraphPattern ts fs opt i (without_subqueries_children cs)"
| "without_subqueries_children [] = []"
| "without_subqueries_children (op # ops) =
     without_subqueries_op op # without_subqueries_children ops"
| "without_subqueries_op (OPTIONAL ps) = OPTIONAL (without_subqueries_patterns ps)"
| "without_subqueries_op (UNION ps) = UNION (without_subqueries_patterns ps)"
| "without_subqueries_op (TRANS_PATH l r mn mx None) = TRANS_PATH l r mn mx None"
| "without_subqueries_op (TRANS_PATH l r mn mx (Some p)) =
     TRANS_PATH l r mn mx (Some (without_subqueries p))"
| "without_subqueries_op (SUBQUERY q) = SUBQUERY None"
| "without_subqueries_patterns [] = []"
| "without_subqueries_patterns (p # ps) =
     without_subqueries p # without_subqueries_patterns ps"

text \<open>The sub-selects of a tree, from left to right, as \<open>recomputeIds\<close> passes them.\<close>

fun subqueries :: "GraphPattern \<Rightarrow> GraphPattern option list"
  and subqueries_children :: "GraphPatternOperation list \<Rightarrow> GraphPattern option list"
  and subqueries_op :: "GraphPatternOperation \<Rightarrow> GraphPattern option list"
  and subqueries_patterns :: "GraphPattern list \<Rightarrow> GraphPattern option list"
where
  "subqueries (GraphPattern ts fs opt i cs) = subqueries_children cs"
| "subqueries_children [] = []"
| "subqueries_children (op # ops) = subqueries_op op @ subqueries_children ops"
| "subqueries_op (OPTIONAL ps) = subqueries_patterns ps"
| "subqueries_op (UNION ps) = subqueries_patterns ps"
| "subqueries_op (TRANS_PATH l r mn mx None) = []"
| "subqueries_op (TRANS_PATH l r mn mx (Some p)) = subqueries p"
| "subqueries_op (SUBQUERY q) = [q]"
| "subqueries_patterns [] = []"
| "subqueries_patterns (p # ps) = subqueries p @ subqueries_patterns ps"

text \<open>
  Two trees for the examples: a root with an optional pattern, a sub-select and a union
  of two patterns, once with old ids 7, 7, 9, 7, 7 and once with old ids 0 and a
  different sub-select.
\<close>

definition leafPattern :: "nat \<Rightarrow> GraphPattern" where
  "leafPattern i = GraphPattern [] [] False i []"

definition exampleTree :: GraphPattern where
  "exampleTree =
     GraphPattern [] [] False 7
       [OPTIONAL [leafPattern 7], SUBQUERY (Some (leafPattern 9)),
        UNION [leafPattern 7, leafPattern 7]]"

definition exampleTree2 :: GraphPattern where
  "exampleTree2 =
     GraphPattern [] [] False 0
       [OPTIONAL [leafPattern 0], SUBQUERY None, UNION [leafPattern 0, leafPattern 0]]"

section \<open>Vocabulary (src/index/Vocabulary.h)\<close>

subsection \<open>Helpers of the C++ standard library and of util/StringUtils.h\<close>

text \<open>
  \<^verbatim>\<open>std::mismatch\<close> on two ranges: the two iterators it returns, as the rests of the two
  lists from the first position where they differ or where one of them ends.
\<close>

fun mismatch :: "'a list \<Rightarrow> 'a list \<Rightarrow> 'a list \<times> 'a list" where
  "mismatch (x # xs) (y # ys) = (if x = y then mismatch xs ys else (x # xs, y # ys))"
| "mismatch xs ys = (xs, ys)"

text \<open>
  \<^verbatim>\<open>std::lower_bound\<close> as the standard library implements it: a binary search over
  \<open>len\<close> elements from position \<open>first\<close>, calling \<open>cmp element value\<close>. It returns a
  position, as the wrappers of the vocabulary do after subtracting \<^verbatim>\<open>begin()\<close>.
\<close>

function std_lower_bound ::
  "('a \<Rightarrow> 'b \<Rightarrow> bool) \<Rightarrow> 'a list \<Rightarrow> 'b \<Rightarrow> nat \<Rightarrow> nat \<Rightarrow> nat" where
  "std_lower_bound cmp xs v first len =
     (if len = 0 then first
      else let half = len div 2; middle = first + half
           in if cmp (xs ! middle) v
              then std_lower_bound cmp xs v (middle + 1) (len - half - 1)
              else std_lower_bound cmp xs v first half)"
  by pat_completeness auto
termination
  by (relation "measure (\<lambda>(cmp, xs, v, first, len). len)") auto

declare std_lower_bound.simps [simp del]

text \<open>
  The comparison \<^verbatim>\<open>*result.first < *result.second\<close> of the comparator is one of plain
  \<^verbatim>\<open>char\<close>, whose signedness is the platform's: the field \<open>charIsSigned\<close>.
\<close>

definition charLess :: "bool \<Rightarrow> char \<Rightarrow> char \<Rightarrow> bool" where
  "charLess isSigned c d =
     (if isSigned
      then (let sc = (\<lambda>x::char. if (of_char x :: nat) < 128 then int (of_char x)
                                  else int (of_char x) - 256)
            in sc c < sc d)
      else c < d)"

subsection \<open>StringSortComparator\<close>

record SplitVal =
  isLiteral :: bool
  val :: string
  langtag :: string

text \<open>
  \<^verbatim>\<open>StringSortComparator::extractComparable\<close>: a term that starts with a quotation mark
  is a literal; its value is the text up to the position \<open>findLiteralEnd\<close> gives, its
  language tag the text after that position (the \<open>@\<close> included).
\<close>

definition extractComparable :: "'u StringUtils_scheme \<Rightarrow> string \<Rightarrow> SplitVal" where
  "extractComparable u a =
     (if startsWith a [CHR 0x22]
      then (let res = drop 1 a
            in case findLiteralEnd u res of
                 Some endPos \<Rightarrow>
                   \<lparr>isLiteral = True, val = take endPos res, langtag = drop (endPos + 1) res\<rparr>
               | None \<Rightarrow> \<lparr>isLiteral = True, val = res, langtag = []\<rparr>)
      else \<lparr>isLiteral = False, val = a, langtag = []\<rparr>)"

text \<open>
  \<^verbatim>\<open>StringSortComparator::caseInsensitiveCompare\<close>, case by case as the source tests the
  two iterators of \<^verbatim>\<open>std::mismatch\<close>.
\<close>

definition caseInsensitiveCompare :: "'u StringUtils_scheme \<Rightarrow> SplitVal \<Rightarrow> SplitVal \<Rightarrow> bool" where
  "caseInsensitiveCompare u a b =
     (let aLower = getLowercaseUtf8 u (val a); bLower = getLowercaseUtf8 u (val b)
      in case mismatch aLower bLower of
           (ra, []) \<Rightarrow>
             (if ra = []
              then (if langtag a \<noteq> langtag b then langtag a < langtag b else val a < val b)
              else False)
         | ([], y # rb) \<Rightarrow> True
         | (x # ra, y # rb) \<Rightarrow> charLess (charIsSigned u) x y)"

text \<open>
  \<^verbatim>\<open>StringSortComparator::operator()\<close>; \<open>ignoreCase\<close> is the member \<^verbatim>\<open>_ignoreCase\<close>.
\<close>

definition comparator :: "'u StringUtils_scheme \<Rightarrow> bool \<Rightarrow> string \<Rightarrow> string \<Rightarrow> bool" where
  "comparator u ignoreCase a b =
     (if \<not> ignoreCase then a < b
      else (let splitA = extractComparable u a; splitB = extractComparable u b
            in if isLiteral splitA \<noteq> isLiteral splitB then a < b
               else caseInsensitiveCompare u splitA splitB))"

subsection \<open>Vocabulary\<close>

text \<open>
  The members the range lookups read: \<^verbatim>\<open>_words\<close> and \<^verbatim>\<open>_caseComparator\<close> (its flag).
  The type of a stored word is \<^verbatim>\<open>string\<close> or \<^verbatim>\<open>CompressedString\<close>; \<open>decode\<close> is what
  \<^verbatim>\<open>at\<close> and \<^verbatim>\<open>lower_bound\<close> apply to a stored word: the identity for \<^verbatim>\<open>string\<close>,
  \<^verbatim>\<open>expandPrefix\<close> (VocabularyImpl.h, not part of the sources at hand) for
  \<^verbatim>\<open>CompressedString\<close>. An \<^verbatim>\<open>Id\<close> is a position, held as a natural number.
\<close>

record 's Vocabulary =
  words :: "'s list"
  caseComparator :: bool

definition vocab_size :: "'s Vocabulary \<Rightarrow> nat" where
  "vocab_size v = length (words v)"

definition vocab_at :: "('s \<Rightarrow> string) \<Rightarrow> 's Vocabulary \<Rightarrow> nat \<Rightarrow> string" where
  "vocab_at decode v i = decode (words v ! i)"

definition lower_bound ::
  "'u StringUtils_scheme \<Rightarrow> ('s \<Rightarrow> string) \<Rightarrow> 's Vocabulary \<Rightarrow> string \<Rightarrow> nat" where
  "lower_bound u decode v word =
     std_lower_bound (\<lambda>a b. comparator u (caseComparator v) (decode a) b)
       (words v) word 0 (length (words v))"

definition getValueIdForLT ::
  "'u StringUtils_scheme \<Rightarrow> ('s \<Rightarrow> string) \<Rightarrow> 's Vocabulary \<Rightarrow> string \<Rightarrow> nat" where
  "getValueIdForLT u decode v indexWord = (let lb = lower_bound u decode v indexWord in lb)"

definition getValueIdForLE ::
  "'u StringUtils_scheme \<Rightarrow> ('s \<Rightarrow> string) \<Rightarrow> 's Vocabulary \<Rightarrow> string \<Rightarrow> nat" where
  "getValueIdForLE u decode v indexWord =
     (let lb = lower_bound u decode v indexWord
      in if (lb < vocab_size v \<and> lb > 0) \<and> vocab_at decode v lb \<noteq> indexWord
         then lb - 1 else lb)"

definition getValueIdForGT ::
  "'u StringUtils_scheme \<Rightarrow> ('s \<Rightarrow> string) \<Rightarrow> 's Vocabulary \<Rightarrow> string \<Rightarrow> nat" where
  "getValueIdForGT u decode v indexWord =
     (let lb = lower_bound u decode v indexWord
      in if (lb < vocab_size v \<and> lb > 0) \<and> vocab_at decode v lb \<noteq> indexWord
         then lb - 1 else lb)"

definition getValueIdForGE ::
  "'u StringUtils_scheme \<Rightarrow> ('s \<Rightarrow> string) \<Rightarrow> 's Vocabulary \<Rightarrow> string \<Rightarrow> nat" where
  "getValueIdForGE u decode v indexWord = (let lb = lower_bound u decode v indexWord in lb)"

text \<open>
  Modelled from the spec: \<^verbatim>\<open>getLowercaseUtf8\<close>, \<^verbatim>\<open>findLiteralEnd\<close> and \<^verbatim>\<open>strip\<close> of
  util/StringUtils.h are missing from the sources at hand. The spec has the comparator
  compare the lowercase of the value, and split a literal by scanning past the inner
  quotation mark, with no closing mark giving an empty language tag; it has the alias
  parser lower-case for keyword matching and trim the output variable name. On the
  ASCII terms of the examples that is: lowercase maps \<open>A\<close> to \<open>Z\<close> onto \<open>a\<close> to \<open>z\<close>, the
  end of a literal is the position of the quotation mark in the text after the opening
  one, and \<open>strip\<close> removes the given characters from both ends.
\<close>

definition asciiLower :: "char \<Rightarrow> char" where
  "asciiLower c =
     (if 65 \<le> (of_char c :: nat) \<and> (of_char c :: nat) \<le> 90
      then char_of ((of_char c :: nat) + 32) else c)"

fun findQuote :: "string \<Rightarrow> nat option" where
  "findQuote [] = None"
| "findQuote (c # cs) =
     (if c = CHR 0x22 then Some 0 else map_option Suc (findQuote cs))"

definition asciiStrip :: "string \<Rightarrow> string \<Rightarrow> string" where
  "asciiStrip s chars =
     rev (dropWhile (\<lambda>c. c \<in> set chars) (rev (dropWhile (\<lambda>c. c \<in> set chars) s)))"

definition asciiUtils :: StringUtils where
  "asciiUtils = \<lparr>getLowercaseUtf8 = map asciiLower, findLiteralEnd = findQuote,
                 strip = asciiStrip, charIsSigned = True\<rparr>"

text \<open>The vocabulary of the range lookup example, stored uncompressed.\<close>

definition exampleVocab :: "string Vocabulary" where
  "exampleVocab = \<lparr>words = [''ant'', ''bee'', ''cat'', ''dog''], caseComparator = False\<rparr>"

text \<open>
  The five terms of the collation example: the literals \<^verbatim>\<open>"banana"@en\<close>, \<^verbatim>\<open>"Apple"\<close>,
  \<^verbatim>\<open>"apple"@de\<close>, \<^verbatim>\<open>"apple"@en\<close> and the IRI \<^verbatim>\<open><http://a>\<close>. The quotation mark
  is the character 0x22.
\<close>

definition lit_banana_en :: string where
  "lit_banana_en = CHR 0x22 # ''banana'' @ CHR 0x22 # ''@en''"

definition lit_Apple :: string where
  "lit_Apple = CHR 0x22 # ''Apple'' @ [CHR 0x22]"

definition lit_apple_de :: string where
  "lit_apple_de = CHR 0x22 # ''apple'' @ CHR 0x22 # ''@de''"

definition lit_apple_en :: string where
  "lit_apple_en = CHR 0x22 # ''apple'' @ CHR 0x22 # ''@en''"

definition iri_http_a :: string where
  "iri_http_a = ''<http://a>''"


section \<open>Transitive path operator (src/engine/TransitivePath.h)\<close>











section \<open>Theorems\<close>

lemma fold_conj_flags:
  "fold (\<lambda>p acc. acc \<and> g p) xs b = (b \<and> list_all g xs)"
  by (induction xs arbitrary: b) auto

lemma computeCanBeNull_fields:
  "pp_operation (computeCanBeNull p) = pp_operation p"
  "pp_limit (computeCanBeNull p) = pp_limit p"
  "pp_iri (computeCanBeNull p) = pp_iri p"
  "pp_children (computeCanBeNull p) = map computeCanBeNull (pp_children p)"
  by (cases p; simp add: Let_def)+

lemma computeCanBeNull_flag:
  "pp_can_be_null (computeCanBeNull p) = nullable_rule (computeCanBeNull p)"
  by (cases p) (auto simp: Let_def nullable_rule_def fold_conj_flags)

lemma computeCanBeNull_everywhere: "can_be_null_everywhere (computeCanBeNull p)"
proof (induction p)
  case (PropertyPath op lim iri cs old)
  have flag: "pp_can_be_null (computeCanBeNull (PropertyPath op lim iri cs old)) =
      nullable_rule (computeCanBeNull (PropertyPath op lim iri cs old))"
    by (rule computeCanBeNull_flag)
  have kids: "list_all can_be_null_everywhere (map computeCanBeNull cs)"
    using PropertyPath.IH by (simp add: list_all_iff)
  obtain cs' fl where shape:
    "computeCanBeNull (PropertyPath op lim iri cs old) = PropertyPath op lim iri cs' fl"
    and cs': "cs' = map computeCanBeNull cs"
    by (simp add: Let_def)
  from flag kids show ?case
    unfolding shape cs' by simp
qed

lemma computeCanBeNull_nullable: "pp_can_be_null (computeCanBeNull p) = nullable p"
proof (induction p)
  case (PropertyPath op lim iri cs old)
  have kids: "list_all pp_can_be_null (map computeCanBeNull cs) = list_all nullable cs"
    using PropertyPath.IH by (induction cs) auto
  show ?case
    by (auto simp: Let_def fold_conj_flags kids)
qed

text \<open>
  C4. \<open>computeCanBeNull\<close> keeps the tree: the operation, limit and IRI of the node are
  unchanged and its children are the recomputed children of the input. The flag
  \<open>can_be_null\<close> it sets is true exactly when the node is \<open>TRANSITIVE\<close>, or
  \<open>TRANSITIVE_MAX\<close>, or \<open>TRANSITIVE_MIN\<close> with limit 0, or has at least one child and every
  child's flag is true, at the root and at every node below it; it is the nullability
  of the input tree as the spec words it, whatever flags the input held. An \<open>IRI\<close> node
  without children gets the flag false; a sequence of two \<open>IRI\<close> leaves is not
  nullable, a sequence of a \<open>TRANSITIVE\<close> and a \<open>TRANSITIVE_MAX\<close> path is, an
  alternative of a \<open>TRANSITIVE\<close> path and an \<open>IRI\<close> leaf is not.
\<close>

theorem computeCanBeNull_spec:
  "pp_can_be_null (computeCanBeNull p) =
     (pp_operation p = TRANSITIVE \<or> pp_operation p = TRANSITIVE_MAX \<or>
      (pp_operation p = TRANSITIVE_MIN \<and> pp_limit p = 0) \<or>
      (pp_children p \<noteq> [] \<and>
       list_all pp_can_be_null (pp_children (computeCanBeNull p))))
   \<and> can_be_null_everywhere (computeCanBeNull p)
   \<and> pp_can_be_null (computeCanBeNull (PropertyPath IRI lim iri [] old)) = False
   \<and> pp_operation (computeCanBeNull p) = pp_operation p
   \<and> pp_limit (computeCanBeNull p) = pp_limit p
   \<and> pp_iri (computeCanBeNull p) = pp_iri p
   \<and> pp_children (computeCanBeNull p) = map computeCanBeNull (pp_children p)
   \<and> pp_can_be_null (computeCanBeNull p) = nullable p
   \<and> pp_can_be_null
        (computeCanBeNull (PropertyPath SEQUENCE 0 [] [iriLeaf ''<a>'', iriLeaf ''<b>''] True))
       = False
   \<and> pp_can_be_null (computeCanBeNull (PropertyPath SEQUENCE 0 [] [starPath, maxPath] False))
       = True
   \<and> pp_can_be_null (computeCanBeNull (PropertyPath ALTERNATIVE 0 [] [starPath, iriLeaf ''<b>''] True))
       = False"
proof -
  have "pp_can_be_null (computeCanBeNull p) = nullable_rule (computeCanBeNull p)"
    by (rule computeCanBeNull_flag)
  then have first: "pp_can_be_null (computeCanBeNull p) =
     (pp_operation p = TRANSITIVE \<or> pp_operation p = TRANSITIVE_MAX \<or>
      (pp_operation p = TRANSITIVE_MIN \<and> pp_limit p = 0) \<or>
      (pp_children p \<noteq> [] \<and>
       list_all pp_can_be_null (pp_children (computeCanBeNull p))))"
    by (simp add: nullable_rule_def computeCanBeNull_fields)
  have leaf: "pp_can_be_null (computeCanBeNull (PropertyPath IRI lim iri [] old)) = False"
    by simp
  have examples:
    "pp_can_be_null
        (computeCanBeNull (PropertyPath SEQUENCE 0 [] [iriLeaf ''<a>'', iriLeaf ''<b>''] True))
       = False"
    "pp_can_be_null (computeCanBeNull (PropertyPath SEQUENCE 0 [] [starPath, maxPath] False))
       = True"
    "pp_can_be_null (computeCanBeNull (PropertyPath ALTERNATIVE 0 [] [starPath, iriLeaf ''<b>''] True))
       = False"
    by (simp_all add: iriLeaf_def starPath_def maxPath_def Let_def)
  from first computeCanBeNull_everywhere leaf computeCanBeNull_fields [of p]
    computeCanBeNull_nullable [of p] examples
  show ?thesis by simp
qed

text \<open>
  C10. A filter of type \<open>EQ\<close> is printed with the operator \<open> < \<close>, the symbol of \<open>LT\<close>:
  an \<open>EQ\<close> filter and an \<open>LT\<close> filter with the same two sides print the same text.
\<close>

theorem asString_EQ_prints_less:
  assumes "f_type f = EQ"
  shows "filter_asString f = ''FILTER('' @ f_lhs f @ '' < '' @ f_rhs f @ '')''
     \<and> filter_asString f = filter_asString (f\<lparr>f_type := LT\<rparr>)"
  using assms by (simp add: filter_asString_def)

theorem asString_EQ_prints_less_witness:
  "filter_asString \<lparr>f_type = EQ, f_lhs = ''?x'', f_rhs = ''?y'', f_regexIgnoreCase = False\<rparr>
     = ''FILTER(?x < ?y)''
   \<and> filter_asString \<lparr>f_type = EQ, f_lhs = ''?x'', f_rhs = ''?y'', f_regexIgnoreCase = False\<rparr>
     = filter_asString \<lparr>f_type = LT, f_lhs = ''?x'', f_rhs = ''?y'', f_regexIgnoreCase = False\<rparr>"
  using asString_EQ_prints_less
    [of "\<lparr>f_type = EQ, f_lhs = ''?x'', f_rhs = ''?y'', f_regexIgnoreCase = False\<rparr>"]
  by (simp add: filter_asString_def)

subsection \<open>Range lookups of the vocabulary\<close>

lemma std_lower_bound_le: "std_lower_bound cmp xs v first len \<le> first + len"
proof (induction cmp xs v first len rule: std_lower_bound.induct)
  case (1 cmp xs v first len)
  show ?case
  proof (cases "len = 0")
    case True
    then show ?thesis by (simp add: std_lower_bound.simps)
  next
    case False
    then show ?thesis
      using "1.IH"(1)[OF False refl refl] "1.IH"(2)[OF False refl refl]
      by (subst std_lower_bound.simps) (auto simp: Let_def)
  qed
qed

lemma lower_bound_le_size: "lower_bound u decode v w \<le> vocab_size v"
  using std_lower_bound_le [of _ "words v" w 0 "length (words v)"]
  by (simp add: lower_bound_def vocab_size_def)

lemma example_lower_bounds:
  "lower_bound u (\<lambda>s. s) exampleVocab ''cat'' = 2"
  "lower_bound u (\<lambda>s. s) exampleVocab ''bat'' = 1"
  "lower_bound u (\<lambda>s. s) exampleVocab ''eel'' = 4"
  by (simp_all add: lower_bound_def exampleVocab_def std_lower_bound.simps comparator_def Let_def)

lemma example_vocab_facts:
  "vocab_size exampleVocab = 4"
  "vocab_at (\<lambda>s. s) exampleVocab i = [''ant'', ''bee'', ''cat'', ''dog''] ! i"
  "words exampleVocab = [''ant'', ''bee'', ''cat'', ''dog'']"
  by (simp_all add: vocab_size_def vocab_at_def exampleVocab_def)

text \<open>
  C2. For every vocabulary and word: \<open>getValueIdForLT\<close> and \<open>getValueIdForGE\<close> return
  \<open>lower_bound\<close>; \<open>getValueIdForLE\<close> returns \<open>lower_bound\<close>, minus one when that position
  is not zero, is below the size of the vocabulary and holds a term other than the word;
  \<open>getValueIdForGT\<close> returns what \<open>getValueIdForLE\<close> returns. On the vocabulary
  ant, bee, cat, dog the four lookups of cat return 2, and those of the absent word bat
  return 1, 0, 0 and 1.
\<close>

theorem getValueId_range_bounds:
  "getValueIdForLT u decode v w = lower_bound u decode v w
   \<and> getValueIdForGE u decode v w = lower_bound u decode v w
   \<and> getValueIdForLE u decode v w =
       (if lower_bound u decode v w \<noteq> 0 \<and> lower_bound u decode v w < vocab_size v
           \<and> vocab_at decode v (lower_bound u decode v w) \<noteq> w
        then lower_bound u decode v w - 1 else lower_bound u decode v w)
   \<and> getValueIdForGT u decode v w = getValueIdForLE u decode v w
   \<and> getValueIdForLT u (\<lambda>s. s) exampleVocab ''cat'' = 2
   \<and> getValueIdForLE u (\<lambda>s. s) exampleVocab ''cat'' = 2
   \<and> getValueIdForGT u (\<lambda>s. s) exampleVocab ''cat'' = 2
   \<and> getValueIdForGE u (\<lambda>s. s) exampleVocab ''cat'' = 2
   \<and> getValueIdForLT u (\<lambda>s. s) exampleVocab ''bat'' = 1
   \<and> getValueIdForLE u (\<lambda>s. s) exampleVocab ''bat'' = 0
   \<and> getValueIdForGT u (\<lambda>s. s) exampleVocab ''bat'' = 0
   \<and> getValueIdForGE u (\<lambda>s. s) exampleVocab ''bat'' = 1"
proof -
  have general:
    "getValueIdForLT u decode v w = lower_bound u decode v w"
    "getValueIdForGE u decode v w = lower_bound u decode v w"
    "getValueIdForLE u decode v w =
       (if lower_bound u decode v w \<noteq> 0 \<and> lower_bound u decode v w < vocab_size v
           \<and> vocab_at decode v (lower_bound u decode v w) \<noteq> w
        then lower_bound u decode v w - 1 else lower_bound u decode v w)"
    "getValueIdForGT u decode v w = getValueIdForLE u decode v w"
    by (auto simp: getValueIdForLT_def getValueIdForGE_def getValueIdForLE_def
        getValueIdForGT_def Let_def)
  have cat:
    "getValueIdForLT u (\<lambda>s. s) exampleVocab ''cat'' = 2"
    "getValueIdForLE u (\<lambda>s. s) exampleVocab ''cat'' = 2"
    "getValueIdForGT u (\<lambda>s. s) exampleVocab ''cat'' = 2"
    "getValueIdForGE u (\<lambda>s. s) exampleVocab ''cat'' = 2"
    by (simp_all add: getValueIdForLT_def getValueIdForGE_def getValueIdForLE_def
        getValueIdForGT_def example_lower_bounds example_vocab_facts)
  have bat:
    "getValueIdForLT u (\<lambda>s. s) exampleVocab ''bat'' = 1"
    "getValueIdForLE u (\<lambda>s. s) exampleVocab ''bat'' = 0"
    "getValueIdForGT u (\<lambda>s. s) exampleVocab ''bat'' = 0"
    "getValueIdForGE u (\<lambda>s. s) exampleVocab ''bat'' = 1"
    by (simp_all add: getValueIdForLT_def getValueIdForGE_def getValueIdForLE_def
        getValueIdForGT_def example_lower_bounds example_vocab_facts)
  from general cat bat show ?thesis by simp
qed

text \<open>
  C7, as stated, fails. The word bat is absent from the vocabulary ant, bee, cat, dog and
  its \<open>lower_bound\<close> is 1, yet \<open>getValueIdForLT\<close> returns 1, not 0: it never decrements.
  The word eel is absent with \<open>lower_bound\<close> 4, the size of the vocabulary, and
  \<open>getValueIdForGT\<close> returns 4: it decrements only inside the vocabulary.
\<close>

theorem LT_decrement_counterexample:
  "''bat'' \<notin> set (map (\<lambda>s. s) (words exampleVocab))
   \<and> lower_bound asciiUtils (\<lambda>s. s) exampleVocab ''bat'' = 1
   \<and> getValueIdForLT asciiUtils (\<lambda>s. s) exampleVocab ''bat'' = 1
   \<and> getValueIdForLT asciiUtils (\<lambda>s. s) exampleVocab ''bat''
       \<noteq> lower_bound asciiUtils (\<lambda>s. s) exampleVocab ''bat'' - 1
   \<and> ''eel'' \<notin> set (map (\<lambda>s. s) (words exampleVocab))
   \<and> lower_bound asciiUtils (\<lambda>s. s) exampleVocab ''eel'' = 4
   \<and> getValueIdForGT asciiUtils (\<lambda>s. s) exampleVocab ''eel'' = 4"
  by (simp add: getValueIdForLT_def getValueIdForGT_def example_lower_bounds
      example_vocab_facts)

text \<open>
  C7, amended. For a word absent from the vocabulary, \<open>getValueIdForLT\<close> returns
  \<open>lower_bound\<close> unchanged; \<open>getValueIdForGT\<close> returns \<open>lower_bound\<close> minus one when that
  position is not zero and below the size of the vocabulary, and \<open>lower_bound\<close> itself
  when the position is zero or is the size of the vocabulary; the position is never
  beyond the size.
\<close>

theorem LT_GT_absent_word:
  assumes absent: "w \<notin> set (map decode (words v))"
  shows "getValueIdForLT u decode v w = lower_bound u decode v w
   \<and> (0 < lower_bound u decode v w \<and> lower_bound u decode v w < vocab_size v \<longrightarrow>
        getValueIdForGT u decode v w = lower_bound u decode v w - 1)
   \<and> (lower_bound u decode v w = 0 \<or> lower_bound u decode v w = vocab_size v \<longrightarrow>
        getValueIdForGT u decode v w = lower_bound u decode v w)
   \<and> lower_bound u decode v w \<le> vocab_size v"
proof -
  have at_differs: "vocab_at decode v i \<noteq> w" if "i < vocab_size v" for i
    using that absent by (auto simp: vocab_at_def vocab_size_def)
  show ?thesis
    using at_differs [of "lower_bound u decode v w"] lower_bound_le_size [of u decode v w]
    by (auto simp: getValueIdForLT_def getValueIdForGT_def Let_def)
qed

theorem LT_GT_absent_word_witness:
  "''bat'' \<notin> set (map (\<lambda>s. s) (words exampleVocab))
   \<and> getValueIdForLT asciiUtils (\<lambda>s. s) exampleVocab ''bat'' = 1
   \<and> 0 < lower_bound asciiUtils (\<lambda>s. s) exampleVocab ''bat''
   \<and> lower_bound asciiUtils (\<lambda>s. s) exampleVocab ''bat'' < vocab_size exampleVocab
   \<and> getValueIdForGT asciiUtils (\<lambda>s. s) exampleVocab ''bat'' = 0
   \<and> ''aaa'' \<notin> set (map (\<lambda>s. s) (words exampleVocab))
   \<and> lower_bound asciiUtils (\<lambda>s. s) exampleVocab ''aaa'' = 0
   \<and> getValueIdForGT asciiUtils (\<lambda>s. s) exampleVocab ''aaa'' = 0"
proof -
  have bat: "''bat'' \<notin> set (map (\<lambda>s. s) (words exampleVocab))"
    by (simp add: example_vocab_facts)
  have aaa: "''aaa'' \<notin> set (map (\<lambda>s. s) (words exampleVocab))"
    by (simp add: example_vocab_facts)
  have lb0: "lower_bound asciiUtils (\<lambda>s. s) exampleVocab ''aaa'' = 0"
    by (simp add: lower_bound_def exampleVocab_def std_lower_bound.simps comparator_def Let_def)
  show ?thesis
    using LT_GT_absent_word [OF bat, of asciiUtils] LT_GT_absent_word [OF aaa, of asciiUtils]
      bat aaa lb0
    by (simp add: example_lower_bounds example_vocab_facts)
qed

subsection \<open>Case-insensitive collation\<close>

lemma charLess_irrefl: "\<not> charLess s c c"
  by (simp add: charLess_def Let_def)

lemma mismatch_fst_empty: "mismatch xs ys = (ra, []) \<Longrightarrow> (ra = []) = (xs = ys)"
  by (induction xs ys arbitrary: ra rule: mismatch.induct) (auto split: if_splits)

lemma mismatch_snd_empty:
  "\<forall>c. \<not> r c c \<Longrightarrow> mismatch xs ys = (ra, []) \<Longrightarrow> (xs, ys) \<notin> lexord {(c, d). r c d}"
  by (induction xs ys arbitrary: ra rule: mismatch.induct) (auto split: if_splits)

lemma mismatch_prefix:
  "mismatch xs ys = ([], y # rb) \<Longrightarrow> (xs, ys) \<in> lexord {(c, d). r c d}"
  by (induction xs ys rule: mismatch.induct) (auto split: if_splits)

lemma mismatch_differ:
  "\<forall>c. \<not> r c c \<Longrightarrow> mismatch xs ys = (x # ra, y # rb) \<Longrightarrow>
     ((xs, ys) \<in> lexord {(c, d). r c d}) = r x y \<and> xs \<noteq> ys"
  by (induction xs ys rule: mismatch.induct) (auto split: if_splits)

lemma caseInsensitiveCompare_eq:
  "caseInsensitiveCompare u a b =
     ((getLowercaseUtf8 u (val a), getLowercaseUtf8 u (val b))
         \<in> lexord {(c, d). charLess (charIsSigned u) c d}
      \<or> (getLowercaseUtf8 u (val a) = getLowercaseUtf8 u (val b)
         \<and> (if langtag a \<noteq> langtag b then langtag a < langtag b else val a < val b)))"
proof -
  define xs where "xs = getLowercaseUtf8 u (val a)"
  define ys where "ys = getLowercaseUtf8 u (val b)"
  define r where "r = charLess (charIsSigned u)"
  have irr: "\<forall>c. \<not> r c c" by (simp add: r_def charLess_irrefl)
  have unfolded: "caseInsensitiveCompare u a b =
     (case mismatch xs ys of
           (ra, []) \<Rightarrow>
             (if ra = []
              then (if langtag a \<noteq> langtag b then langtag a < langtag b else val a < val b)
              else False)
         | ([], y # rb) \<Rightarrow> True
         | (x # ra, y # rb) \<Rightarrow> r x y)"
    unfolding caseInsensitiveCompare_def Let_def xs_def ys_def r_def by (rule refl)
  have goal: "(case mismatch xs ys of
           (ra, []) \<Rightarrow>
             (if ra = []
              then (if langtag a \<noteq> langtag b then langtag a < langtag b else val a < val b)
              else False)
         | ([], y # rb) \<Rightarrow> True
         | (x # ra, y # rb) \<Rightarrow> r x y) =
       ((xs, ys) \<in> lexord {(c, d). r c d}
        \<or> (xs = ys \<and> (if langtag a \<noteq> langtag b then langtag a < langtag b else val a < val b)))"
  proof (cases "mismatch xs ys")
    case (Pair ra rb)
    show ?thesis
    proof (cases rb)
      case Nil
      with Pair have m: "mismatch xs ys = (ra, [])" by simp
      from mismatch_fst_empty [OF m] mismatch_snd_empty [of r, OF irr m] m
      show ?thesis by (auto split: list.splits)
    next
      case (Cons y rb')
      show ?thesis
      proof (cases ra)
        case Nil
        with Pair Cons have m: "mismatch xs ys = ([], y # rb')" by simp
        from mismatch_prefix [OF m, of r] m show ?thesis by simp
      next
        case (Cons x ra')
        with Pair \<open>rb = y # rb'\<close> have m: "mismatch xs ys = (x # ra', y # rb')" by simp
        from mismatch_differ [of r, OF irr m] m show ?thesis by simp
      qed
    qed
  qed
  show ?thesis
    unfolding unfolded goal by (simp add: xs_def ys_def r_def)
qed

text \<open>
  C3, as stated, fails on its example. Under case-insensitive collation the literal
  \<^verbatim>\<open>"Apple"\<close> is ordered before the IRI \<^verbatim>\<open><http://a>\<close> and not after it: the two are
  of different classes, the raw strings are compared, and the quotation mark (0x22) is
  less than \<^verbatim>\<open><\<close> (0x3C). So the order that puts \<^verbatim>\<open><http://a>\<close> first is not sorted.
\<close>

theorem collation_example_counterexample:
  "comparator asciiUtils True lit_Apple iri_http_a
   \<and> \<not> comparator asciiUtils True iri_http_a lit_Apple
   \<and> \<not> sorted_wrt (comparator asciiUtils True)
         [iri_http_a, lit_Apple, lit_apple_de, lit_apple_en, lit_banana_en]"
  by code_simp

text \<open>
  C3, amended. Under case-insensitive collation two terms of different classes (literal
  or not) are ordered by raw string comparison; two terms of the same class are ordered
  by the lowercase of their values (character by character, with the comparison of plain
  \<^verbatim>\<open>char\<close>), on a tie by language tag, on a tie by the original value. The sorted order
  of the five example terms is \<^verbatim>\<open>"Apple"\<close>, \<^verbatim>\<open>"apple"@de\<close>, \<^verbatim>\<open>"apple"@en\<close>,
  \<^verbatim>\<open>"banana"@en\<close>, \<^verbatim>\<open><http://a>\<close>: the literals first, the IRI last.
\<close>

theorem comparator_ignoreCase_order:
  "comparator u True a b =
     (if isLiteral (extractComparable u a) \<noteq> isLiteral (extractComparable u b) then a < b
      else ((getLowercaseUtf8 u (val (extractComparable u a)),
             getLowercaseUtf8 u (val (extractComparable u b)))
               \<in> lexord {(c, d). charLess (charIsSigned u) c d}
            \<or> (getLowercaseUtf8 u (val (extractComparable u a))
                 = getLowercaseUtf8 u (val (extractComparable u b))
               \<and> (if langtag (extractComparable u a) \<noteq> langtag (extractComparable u b)
                  then langtag (extractComparable u a) < langtag (extractComparable u b)
                  else val (extractComparable u a) < val (extractComparable u b)))))
   \<and> sorted_wrt (comparator asciiUtils True)
        [lit_Apple, lit_apple_de, lit_apple_en, lit_banana_en, iri_http_a]"
proof -
  have classes: "comparator u True a b =
     (if isLiteral (extractComparable u a) \<noteq> isLiteral (extractComparable u b) then a < b
      else caseInsensitiveCompare u (extractComparable u a) (extractComparable u b))"
    by (simp add: comparator_def Let_def)
  have example: "sorted_wrt (comparator asciiUtils True)
        [lit_Apple, lit_apple_de, lit_apple_en, lit_banana_en, iri_http_a]"
    by code_simp
  show ?thesis
    unfolding classes caseInsensitiveCompare_eq using example by simp
qed

subsection \<open>Prefix expansion\<close>

lemma find_at_char_None: "(find_at s [c] k = None) = (c \<notin> set s)"
  by (induction s arbitrary: k) (auto simp: startsWith_def)

lemma str_find_char_None:
  "pos \<le> length s \<Longrightarrow> (str_find s [c] pos = None) = (c \<notin> set (drop pos s))"
  by (simp add: str_find_def find_at_char_None)

lemma splitLangtag_error:
  "(\<exists>e. splitLangtag item = Inl e) = (startsWith item ''@'' \<and> CHR ''@'' \<notin> set (drop 1 item))"
proof (cases "startsWith item ''@''")
  case True
  then have "1 \<le> length item" by (cases item) (auto simp: startsWith_def)
  from str_find_char_None [OF this, of "CHR ''@''"] True show ?thesis
    by (auto simp: splitLangtag_def split: option.splits)
next
  case False
  then show ?thesis by (simp add: splitLangtag_def)
qed

lemma splitLangtag_error_kind:
  "splitLangtag item = Inl e \<Longrightarrow> \<exists>msg. e = ParseException msg"
  by (auto simp: splitLangtag_def split: if_splits option.splits)

lemma expandPrefix_Inl:
  "(expandPrefix conv pm item = Inl e) =
     (\<not> startsWith item ''?'' \<and> \<not> startsWith item ''<'' \<and> splitLangtag item = Inl e)"
  by (auto simp: expandPrefix_def Let_def split: sum.splits option.splits prod.splits)

lemma at_not_other: "startsWith item ''@'' \<Longrightarrow> \<not> startsWith item ''?'' \<and> \<not> startsWith item ''<''"
  by (cases item) (auto simp: startsWith_def)

text \<open>
  C9. \<open>expandPrefix\<close> on a single term returns an item that begins with \<open>?\<close> or \<open><\<close>
  unchanged. It raises exactly when the item begins with \<open>@\<close> and has no second \<open>@\<close>
  (such an item begins with neither \<open>?\<close> nor \<open><\<close>), and what it raises then is a
  \<open>ParseException\<close>; in every other case it returns a term.
\<close>

theorem expandPrefix_raises:
  "(startsWith item ''?'' \<or> startsWith item ''<'' \<longrightarrow> expandPrefix conv pm item = Inr item)
   \<and> ((\<exists>e. expandPrefix conv pm item = Inl e) =
        (\<not> startsWith item ''?'' \<and> \<not> startsWith item ''<'' \<and>
         startsWith item ''@'' \<and> CHR ''@'' \<notin> set (drop 1 item)))
   \<and> (\<forall>e. expandPrefix conv pm item = Inl e \<longrightarrow> (\<exists>msg. e = ParseException msg))
   \<and> (\<not> (startsWith item ''@'' \<and> CHR ''@'' \<notin> set (drop 1 item)) \<longrightarrow>
        (\<exists>r. expandPrefix conv pm item = Inr r))"
proof -
  have unchanged:
    "startsWith item ''?'' \<or> startsWith item ''<'' \<longrightarrow> expandPrefix conv pm item = Inr item"
    by (auto simp: expandPrefix_def)
  have raises: "(\<exists>e. expandPrefix conv pm item = Inl e) =
        (\<not> startsWith item ''?'' \<and> \<not> startsWith item ''<'' \<and>
         startsWith item ''@'' \<and> CHR ''@'' \<notin> set (drop 1 item))"
    using splitLangtag_error [of item] at_not_other [of item]
    by (auto simp: expandPrefix_Inl)
  have kind: "\<forall>e. expandPrefix conv pm item = Inl e \<longrightarrow> (\<exists>msg. e = ParseException msg)"
    by (auto simp: expandPrefix_Inl dest: splitLangtag_error_kind)
  have returns: "\<not> (startsWith item ''@'' \<and> CHR ''@'' \<notin> set (drop 1 item)) \<longrightarrow>
        (\<exists>r. expandPrefix conv pm item = Inr r)"
  proof
    assume "\<not> (startsWith item ''@'' \<and> CHR ''@'' \<notin> set (drop 1 item))"
    with raises have "\<not> (\<exists>e. expandPrefix conv pm item = Inl e)" by blast
    then show "\<exists>r. expandPrefix conv pm item = Inr r"
      by (cases "expandPrefix conv pm item") auto
  qed
  from unchanged raises kind returns show ?thesis by blast
qed

theorem expandPrefix_raises_witness:
  "expandPrefix tagPredicate xsdPrefixMap ''?x'' = Inr ''?x''
   \<and> expandPrefix tagPredicate xsdPrefixMap ''<a>'' = Inr ''<a>''
   \<and> (\<exists>e. expandPrefix tagPredicate xsdPrefixMap ''@en'' = Inl e)
   \<and> (\<exists>r. expandPrefix tagPredicate xsdPrefixMap ''@en@xsd:label'' = Inr r)
   \<and> (\<exists>r. expandPrefix tagPredicate xsdPrefixMap ''xsd:int'' = Inr r)"
  using expandPrefix_raises [of "''?x''" tagPredicate xsdPrefixMap]
    expandPrefix_raises [of "''<a>''" tagPredicate xsdPrefixMap]
    expandPrefix_raises [of "''@en''" tagPredicate xsdPrefixMap]
    expandPrefix_raises [of "''@en@xsd:label''" tagPredicate xsdPrefixMap]
    expandPrefix_raises [of "''xsd:int''" tagPredicate xsdPrefixMap]
  by (simp add: startsWith_def)

text \<open>
  C5. The term \<^verbatim>\<open>"a:b"^^xsd:int\<close> begins with neither \<open>?\<close> nor \<open><\<close> and contains the
  marker \<open>^^\<close>; a search for \<open>:\<close> that starts after the marker finds the colon after
  \<open>xsd\<close>, and \<open>xsd\<close> is a declared prefix. \<open>expandPrefix\<close> returns the term unchanged, not
  the term with \<open>xsd:int\<close> replaced: it takes the position after the marker for the
  start of the prefix, but looks for the colon from the start of the term and finds the
  one inside the literal. The term \<^verbatim>\<open>"ab"^^xsd:int\<close>, with no colon in the literal, is
  expanded: the stored IRI without its last character, the local part and a closing
  \<open>>\<close> follow the characters up to and including the marker.
\<close>

theorem expandPrefix_colon_in_literal:
  "\<not> startsWith typed_literal_colon ''?''
   \<and> \<not> startsWith typed_literal_colon ''<''
   \<and> str_find typed_literal_colon ''^^'' 0 = Some 5
   \<and> str_find typed_literal_colon '':'' (5 + 2) = Some 10
   \<and> xsdPrefixMap (take (10 - (5 + 2)) (drop (5 + 2) typed_literal_colon)) = Some ''<http://x/>''
   \<and> expandPrefix tagPredicate xsdPrefixMap typed_literal_colon = Inr typed_literal_colon
   \<and> expandPrefix tagPredicate xsdPrefixMap typed_literal_colon \<noteq>
        Inr (take (5 + 2) typed_literal_colon @ butlast ''<http://x/>'' @
             drop (10 + 1) typed_literal_colon @ ''>'')
   \<and> str_find typed_literal_plain ''^^'' 0 = Some 4
   \<and> str_find typed_literal_plain '':'' (4 + 2) = Some 9
   \<and> xsdPrefixMap (take (9 - (4 + 2)) (drop (4 + 2) typed_literal_plain)) = Some ''<http://x/>''
   \<and> expandPrefix tagPredicate xsdPrefixMap typed_literal_plain =
        Inr (take (4 + 2) typed_literal_plain @ butlast ''<http://x/>'' @
             drop (9 + 1) typed_literal_plain @ ''>'')"
  by code_simp

subsection \<open>Id assignment\<close>

lemmas recomputeIds_induct =
  recomputeIds_recomputeIds_children_recomputeIds_op_recomputeIds_patterns.induct

lemma upt_split: "[n ..< n + (a + b)] = [n ..< n + a] @ [n + a ..< n + a + b]"
  using upt_add_eq_append [of n "n + a" b] by (simp add: add.assoc)

lemma upt_head: "n # [n + 1 ..< n + 1 + k] = [n ..< n + Suc k]"
  by (simp add: upt_conv_Cons del: upt_Suc)

lemma recomputeIds_preorder:
  "preorder_ids (fst (recomputeIds g n)) = [n ..< n + length (preorder_ids g)]
     \<and> snd (recomputeIds g n) = n + length (preorder_ids g)"
  "preorder_ids_children (fst (recomputeIds_children cs n)) =
       [n ..< n + length (preorder_ids_children cs)]
     \<and> snd (recomputeIds_children cs n) = n + length (preorder_ids_children cs)"
  "preorder_ids_op (fst (recomputeIds_op op n)) = [n ..< n + length (preorder_ids_op op)]
     \<and> snd (recomputeIds_op op n) = n + length (preorder_ids_op op)"
  "preorder_ids_patterns (fst (recomputeIds_patterns ps n)) =
       [n ..< n + length (preorder_ids_patterns ps)]
     \<and> snd (recomputeIds_patterns ps n) = n + length (preorder_ids_patterns ps)"
proof (induction g n and cs n and op n and ps n rule: recomputeIds_induct)
  case (1 ts fs opt old cs id_count)
  then show ?case
    using upt_head [of id_count "length (preorder_ids_children cs)"]
    by (simp add: case_prod_unfold del: upt_Suc)
next
  case (3 op ops id_count)
  obtain op' m where op: "recomputeIds_op op id_count = (op', m)" by force
  from 3(1) op have 1: "preorder_ids_op op' = [id_count ..< id_count + length (preorder_ids_op op)]"
    and m: "m = id_count + length (preorder_ids_op op)" by simp_all
  from 3(2) [OF op [symmetric]] have
    2: "preorder_ids_children (fst (recomputeIds_children ops m)) =
          [m ..< m + length (preorder_ids_children ops)]"
    and 3: "snd (recomputeIds_children ops m) = m + length (preorder_ids_children ops)"
    by simp_all
  show ?case
    using 1 2 3
      upt_split [of id_count "length (preorder_ids_op op)" "length (preorder_ids_children ops)"]
    unfolding m by (simp add: op [unfolded m] case_prod_unfold add.assoc del: upt_Suc)
next
  case (10 p ps id_count)
  obtain p' m where p: "recomputeIds p id_count = (p', m)" by force
  from 10(1) p have 1: "preorder_ids p' = [id_count ..< id_count + length (preorder_ids p)]"
    and m: "m = id_count + length (preorder_ids p)" by simp_all
  from 10(2) [OF p [symmetric]] have
    2: "preorder_ids_patterns (fst (recomputeIds_patterns ps m)) =
          [m ..< m + length (preorder_ids_patterns ps)]"
    and 3: "snd (recomputeIds_patterns ps m) = m + length (preorder_ids_patterns ps)"
    by simp_all
  show ?case
    using 1 2 3
      upt_split [of id_count "length (preorder_ids p)" "length (preorder_ids_patterns ps)"]
    unfolding m by (simp add: p [unfolded m] case_prod_unfold add.assoc del: upt_Suc)
qed (simp_all add: case_prod_unfold del: upt_Suc)

lemma recomputeIds_shape:
  "shape (fst (recomputeIds g n)) = shape g"
  "shape_children (fst (recomputeIds_children cs n)) = shape_children cs"
  "shape_op (fst (recomputeIds_op op n)) = shape_op op"
  "shape_patterns (fst (recomputeIds_patterns ps n)) = shape_patterns ps"
proof (induction g n and cs n and op n and ps n rule: recomputeIds_induct)
  case (3 op ops id_count)
  obtain op' m where op: "recomputeIds_op op id_count = (op', m)" by force
  from 3(1) 3(2) [OF op [symmetric]] op show ?case by (simp add: case_prod_unfold)
next
  case (10 p ps id_count)
  obtain p' m where p: "recomputeIds p id_count = (p', m)" by force
  from 10(1) 10(2) [OF p [symmetric]] p show ?case by (simp add: case_prod_unfold)
qed (simp_all add: case_prod_unfold)

lemma recomputeIds_subqueries:
  "subqueries (fst (recomputeIds g n)) = subqueries g"
  "subqueries_children (fst (recomputeIds_children cs n)) = subqueries_children cs"
  "subqueries_op (fst (recomputeIds_op op n)) = subqueries_op op"
  "subqueries_patterns (fst (recomputeIds_patterns ps n)) = subqueries_patterns ps"
proof (induction g n and cs n and op n and ps n rule: recomputeIds_induct)
  case (3 op ops id_count)
  obtain op' m where op: "recomputeIds_op op id_count = (op', m)" by force
  from 3(1) 3(2) [OF op [symmetric]] op show ?case by (simp add: case_prod_unfold)
next
  case (10 p ps id_count)
  obtain p' m where p: "recomputeIds p id_count = (p', m)" by force
  from 10(1) 10(2) [OF p [symmetric]] p show ?case by (simp add: case_prod_unfold)
qed (simp_all add: case_prod_unfold)

lemma shape_preorder_length:
  "length (preorder_ids (shape g)) = length (preorder_ids g)"
  "length (preorder_ids_children (shape_children cs)) = length (preorder_ids_children cs)"
  "length (preorder_ids_op (shape_op op)) = length (preorder_ids_op op)"
  "length (preorder_ids_patterns (shape_patterns ps)) = length (preorder_ids_patterns ps)"
  by (induction g and cs and op and ps
      rule: shape_shape_children_shape_op_shape_patterns.induct) simp_all

lemma recomputeIds_of_shape:
  "without_subqueries (fst (recomputeIds g n)) =
     without_subqueries (fst (recomputeIds (shape g) n))"
  "without_subqueries_children (fst (recomputeIds_children cs n)) =
     without_subqueries_children (fst (recomputeIds_children (shape_children cs) n))"
  "without_subqueries_op (fst (recomputeIds_op op n)) =
     without_subqueries_op (fst (recomputeIds_op (shape_op op) n))"
  "without_subqueries_patterns (fst (recomputeIds_patterns ps n)) =
     without_subqueries_patterns (fst (recomputeIds_patterns (shape_patterns ps) n))"
proof (induction g n and cs n and op n and ps n rule: recomputeIds_induct)
  case (3 op ops id_count)
  obtain op' m where op: "recomputeIds_op op id_count = (op', m)" by force
  obtain op2 m2 where op2: "recomputeIds_op (shape_op op) id_count = (op2, m2)" by force
  have "m2 = m"
    using recomputeIds_preorder(3) [of op id_count]
      recomputeIds_preorder(3) [of "shape_op op" id_count] op op2
    by (simp add: shape_preorder_length)
  with 3(1) 3(2) [OF op [symmetric]] op op2 show ?case by (simp add: case_prod_unfold)
next
  case (10 p ps id_count)
  obtain p' m where p: "recomputeIds p id_count = (p', m)" by force
  obtain p2 m2 where p2: "recomputeIds (shape p) id_count = (p2, m2)" by force
  have "m2 = m"
    using recomputeIds_preorder(1) [of p id_count]
      recomputeIds_preorder(1) [of "shape p" id_count] p p2
    by (simp add: shape_preorder_length)
  with 10(1) 10(2) [OF p [symmetric]] p p2 show ?case by (simp add: case_prod_unfold)
next
  case (1 ts fs opt old cs id_count)
  then show ?case by (simp add: case_prod_unfold)
qed (simp_all add: case_prod_unfold)

lemma recomputeIds_gp_id: "gp_id (fst (recomputeIds g n)) = n"
  by (cases g) (simp add: case_prod_unfold)

text \<open>
  C6. \<open>recomputeIds\<close> walks the tree in pre-order: the pattern it is called on gets the
  counter's value, and the ids of the tree in pre-order, sub-selects left out, are the
  consecutive values from the counter on, the counter ending one past the last. From
  the root the ids start at 0. The walk goes through the patterns of \<open>OPTIONAL\<close> and
  \<open>UNION\<close> and the inner pattern of \<open>TRANS_PATH\<close>; the sub-selects are passed over as
  they are, their ids untouched, and take no counter value. Nothing but ids changes.
  Hence two trees with the same structure, sub-selects and old ids aside, get the same
  ids: after \<open>recomputeIds\<close> they are equal up to their sub-selects.
\<close>

theorem recomputeIds_preorder_walk:
  "gp_id (fst (recomputeIds g n)) = n
   \<and> preorder_ids (fst (recomputeIds g n)) = [n ..< n + length (preorder_ids g)]
   \<and> snd (recomputeIds g n) = n + length (preorder_ids g)
   \<and> preorder_ids (recomputeIds_root g) = [0 ..< length (preorder_ids g)]
   \<and> subqueries (fst (recomputeIds g n)) = subqueries g
   \<and> shape (fst (recomputeIds g n)) = shape g
   \<and> (shape g = shape g' \<longrightarrow>
        without_subqueries (recomputeIds_root g) = without_subqueries (recomputeIds_root g'))"
proof -
  have same: "without_subqueries (recomputeIds_root g) = without_subqueries (recomputeIds_root g')"
    if "shape g = shape g'"
    using recomputeIds_of_shape(1) [of g 0] recomputeIds_of_shape(1) [of g' 0] that
    by (simp add: recomputeIds_root_def)
  from recomputeIds_gp_id [of g n] recomputeIds_preorder(1) [of g n]
    recomputeIds_preorder(1) [of g 0] recomputeIds_subqueries(1) [of g n]
    recomputeIds_shape(1) [of g n] same
  show ?thesis by (simp add: recomputeIds_root_def)
qed

theorem recomputeIds_preorder_walk_witness:
  "shape exampleTree = shape exampleTree2
   \<and> without_subqueries (recomputeIds_root exampleTree) =
       without_subqueries (recomputeIds_root exampleTree2)
   \<and> preorder_ids (recomputeIds_root exampleTree) = [0, 1, 2, 3]
   \<and> recomputeIds_root exampleTree =
       GraphPattern [] [] False 0
         [OPTIONAL [leafPattern 1], SUBQUERY (Some (leafPattern 9)),
          UNION [leafPattern 2, leafPattern 3]]"
proof -
  have s: "shape exampleTree = shape exampleTree2"
    by (simp add: exampleTree_def exampleTree2_def leafPattern_def)
  have v: "recomputeIds_root exampleTree =
       GraphPattern [] [] False 0
         [OPTIONAL [leafPattern 1], SUBQUERY (Some (leafPattern 9)),
          UNION [leafPattern 2, leafPattern 3]]"
    by (simp add: recomputeIds_root_def exampleTree_def leafPattern_def)
  have p: "preorder_ids (recomputeIds_root exampleTree) = [0, 1, 2, 3]"
    unfolding v by (simp add: leafPattern_def)
  from recomputeIds_preorder_walk [of exampleTree 0 exampleTree2] s v p
  show ?thesis by simp
qed

subsection \<open>Duplicate aliases\<close>

lemma parseAliasHead_fields:
  "parseAliasHead u alias = Inr a \<Longrightarrow> alias_function a = alias \<and> isAggregate a"
  by (auto simp: parseAliasHead_def Let_def split: if_splits option.splits)

lemma checkUnique_True:
  "checkUnique a L = Inr True \<Longrightarrow> outVarName a \<notin> set (map outVarName L)"
  by (induction L) (auto split: if_splits)

lemma checkUnique_recorded:
  "distinct (map outVarName L) \<Longrightarrow> other \<in> set L \<Longrightarrow> outVarName other = outVarName a \<Longrightarrow>
     checkUnique a L =
       (if isAggregate other \<noteq> isAggregate a \<or> alias_function other \<noteq> alias_function a
        then Inl (ParseException
               (''Two aliases try to bind values to the variable '' @ outVarName a))
        else Inr False)"
proof (induction L)
  case Nil
  then show ?case by simp
next
  case (Cons x L)
  show ?case
  proof (cases "x = other")
    case True
    with Cons.prems show ?thesis by simp
  next
    case False
    with Cons.prems have in_rest: "other \<in> set L" by simp
    then have "outVarName other \<in> outVarName ` set L" by simp
    with Cons.prems have "outVarName x \<noteq> outVarName a" by auto
    with Cons.IH Cons.prems in_rest show ?thesis by simp
  qed
qed

lemma parseAlias_inv:
  assumes "aliases_inv u L" "parseAlias u L alias = Inr (v, L')"
  shows "aliases_inv u L'"
proof -
  from assms(2) obtain a isUnique where
    head: "parseAliasHead u alias = Inr a" and
    chk: "checkUnique a L = Inr isUnique" and
    L': "L' = (if isUnique then L @ [a] else L)"
    by (auto simp: parseAlias_def split: sum.splits)
  show ?thesis
  proof (cases isUnique)
    case True
    with chk have "outVarName a \<notin> set (map outVarName L)"
      using checkUnique_True [of a L] by simp
    moreover from head have "parseAliasHead u (alias_function a) = Inr a"
      using parseAliasHead_fields [OF head] by simp
    ultimately show ?thesis using assms(1) L' True by (simp add: aliases_inv_def)
  next
    case False
    with L' assms(1) show ?thesis by simp
  qed
qed

lemma parseAliasSeq_inv:
  "aliases_inv u L \<Longrightarrow> parseAliasSeq u xs L = Inr L' \<Longrightarrow> aliases_inv u L'"
proof (induction xs arbitrary: L)
  case Nil
  then show ?case by simp
next
  case (Cons x xs)
  from Cons.prems(2) obtain v L1 where
    step: "parseAlias u L x = Inr (v, L1)" and rest: "parseAliasSeq u xs L1 = Inr L'"
    by (auto split: sum.splits)
  from parseAlias_inv [OF Cons.prems(1) step] have "aliases_inv u L1" .
  from Cons.IH [OF this rest] show ?case .
qed

text \<open>
  C8. Let \<^verbatim>\<open>_aliases\<close> be what a sequence of alias projections processed by
  \<open>parseAlias\<close> has recorded, \<open>other\<close> one of the recorded aliases, and \<open>alias\<close> an alias
  that parses to \<open>a\<close> with the output variable of \<open>other\<close>. Then \<open>parseAlias\<close> raises
  exactly when the two differ in the aggregate flag or in the function text, what it
  raises is a \<open>ParseException\<close>, and when flag and text are the same it returns the
  output variable and leaves the recorded list as it was. (The function text of \<open>a\<close> is
  the text of the alias, its flag is true.)
\<close>

theorem parseAlias_duplicate:
  assumes processed: "parseAliasSeq u xs [] = Inr L"
    and recorded: "other \<in> set L"
    and parsed: "parseAliasHead u alias = Inr a"
    and sameOut: "outVarName a = outVarName other"
  shows "((\<exists>e. parseAlias u L alias = Inl e) =
            (isAggregate other \<noteq> isAggregate a \<or> alias_function other \<noteq> alias_function a))
     \<and> (\<forall>e. parseAlias u L alias = Inl e \<longrightarrow> (\<exists>msg. e = ParseException msg))
     \<and> (isAggregate other = isAggregate a \<and> alias_function other = alias_function a \<longrightarrow>
          parseAlias u L alias = Inr (outVarName a, L))
     \<and> alias_function a = alias \<and> isAggregate a"
proof -
  have "aliases_inv u []" by (simp add: aliases_inv_def)
  from parseAliasSeq_inv [OF this processed] have "distinct (map outVarName L)"
    by (simp add: aliases_inv_def)
  from checkUnique_recorded [OF this recorded sameOut [symmetric]]
  have chk: "checkUnique a L =
       (if isAggregate other \<noteq> isAggregate a \<or> alias_function other \<noteq> alias_function a
        then Inl (ParseException
               (''Two aliases try to bind values to the variable '' @ outVarName a))
        else Inr False)" .
  show ?thesis
    using parseAliasHead_fields [OF parsed]
    by (auto simp: parseAlias_def parsed chk)
qed

lemma example_alias_facts:
  "parseAliasSeq asciiUtils [''COUNT(?x) as ?n''] [] =
     Inr [\<lparr>inVarName = ''?x'', outVarName = ''?n'', alias_function = ''COUNT(?x) as ?n'',
           isAggregate = True\<rparr>]"
  "parseAliasHead asciiUtils ''COUNT(?x) as ?n'' =
     Inr \<lparr>inVarName = ''?x'', outVarName = ''?n'', alias_function = ''COUNT(?x) as ?n'',
          isAggregate = True\<rparr>"
  "parseAliasHead asciiUtils ''COUNT(DISTINCT ?x) as ?n'' =
     Inr \<lparr>inVarName = ''?x'', outVarName = ''?n'',
          alias_function = ''COUNT(DISTINCT ?x) as ?n'', isAggregate = True\<rparr>"
  by code_simp+

theorem parseAlias_duplicate_witness:
  "parseAlias asciiUtils
      [\<lparr>inVarName = ''?x'', outVarName = ''?n'', alias_function = ''COUNT(?x) as ?n'',
        isAggregate = True\<rparr>] ''COUNT(?x) as ?n'' =
     Inr (''?n'', [\<lparr>inVarName = ''?x'', outVarName = ''?n'',
                    alias_function = ''COUNT(?x) as ?n'', isAggregate = True\<rparr>])
   \<and> (\<exists>e. parseAlias asciiUtils
        [\<lparr>inVarName = ''?x'', outVarName = ''?n'', alias_function = ''COUNT(?x) as ?n'',
          isAggregate = True\<rparr>] ''COUNT(DISTINCT ?x) as ?n'' = Inl e)"
proof -
  let ?rec = "\<lparr>inVarName = ''?x'', outVarName = ''?n'', alias_function = ''COUNT(?x) as ?n'',
        isAggregate = True\<rparr>"
  let ?new = "\<lparr>inVarName = ''?x'', outVarName = ''?n'',
        alias_function = ''COUNT(DISTINCT ?x) as ?n'', isAggregate = True\<rparr>"
  have mem: "?rec \<in> set [?rec]" by simp
  have out1: "outVarName ?rec = outVarName ?rec" by simp
  have out2: "outVarName ?new = outVarName ?rec" by simp
  from parseAlias_duplicate [OF example_alias_facts(1) mem example_alias_facts(2) out1]
    parseAlias_duplicate [OF example_alias_facts(1) mem example_alias_facts(3) out2]
  show ?thesis by simp
qed

subsection \<open>Transitive paths\<close>
















end
